theory Spec2Isabelle
  imports Complex_Main
begin

section \<open>Endurance racing tracker: schedule, ingestion loop and race monitor\<close>

text \<open>
  A shallow embedding of \<^verbatim>\<open>backend/schedule.py\<close>, \<^verbatim>\<open>backend/ingest.py\<close> and
  \<^verbatim>\<open>backend/race_monitor.py\<close>.

  Conventions of the embedding:
  \<^item> an aware UTC \<^verbatim>\<open>datetime\<close> is the integer number of microseconds since the epoch
    (the resolution of Python's \<^verbatim>\<open>datetime\<close>);
  \<^item> a Python \<^verbatim>\<open>float\<close> is the exact rational it is computed from (no binary64
    rounding), with \<^verbatim>\<open>inf\<close> and \<^verbatim>\<open>nan\<close> as separate values where a parser can
    produce them;
  \<^item> every exception is a value of \<open>py_error\<close>; a \<^verbatim>\<open>try/except Exception\<close> is a case
    distinction on the result;
  \<^item> what the outside world decides (the clock, the outcome of a fetch, of the
    callback, of the export) is an explicit argument.
\<close>

datatype py_error = TypeError | AttributeError | ValueError | OtherError

type_synonym instant = int

subsection \<open>schedule.py\<close>

record race_info =
  ev_name :: string
  ev_track :: string
  ev_date :: instant
  ev_series :: string
  ev_timing_url :: string

definition utc_seconds :: "int \<Rightarrow> instant" where
  "utc_seconds s = s * 1000000"

definition WEC_SCHEDULE :: "race_info list" where
  "WEC_SCHEDULE =
    [\<lparr>ev_name = ''6 Hours of Qatar'', ev_track = ''Losail International Circuit'',
       ev_date = utc_seconds 1740751200, ev_series = ''WEC'',
       ev_timing_url = ''https://timing.71wytham.org.uk/''\<rparr>,
     \<lparr>ev_name = ''1000 Miles of Sebring'', ev_track = ''Sebring International Raceway'',
       ev_date = utc_seconds 1741971600, ev_series = ''WEC'',
       ev_timing_url = ''https://timing.71wytham.org.uk/''\<rparr>,
     \<lparr>ev_name = ''6 Hours of Imola'', ev_track = ''Autodromo Enzo e Dino Ferrari'',
       ev_date = utc_seconds 1745150400, ev_series = ''WEC'',
       ev_timing_url = ''https://timing.71wytham.org.uk/''\<rparr>,
     \<lparr>ev_name = ''6 Hours of Spa-Francorchamps'', ev_track = ''Circuit de Spa-Francorchamps'',
       ev_date = utc_seconds 1746882000, ev_series = ''WEC'',
       ev_timing_url = ''https://timing.71wytham.org.uk/''\<rparr>,
     \<lparr>ev_name = ''24 Hours of Le Mans'', ev_track = ''Circuit de la Sarthe'',
       ev_date = utc_seconds 1749913200, ev_series = ''WEC'',
       ev_timing_url = ''https://timing.71wytham.org.uk/''\<rparr>]"

definition IMSA_SCHEDULE :: "race_info list" where
  "IMSA_SCHEDULE =
    [\<lparr>ev_name = ''12 Hours of Sebring'', ev_track = ''Sebring International Raceway'',
       ev_date = utc_seconds 1742053200, ev_series = ''IMSA'',
       ev_timing_url = ''https://www.imsa.com/scoring/''\<rparr>,
     \<lparr>ev_name = ''Grand Prix of Long Beach'', ev_track = ''Long Beach Street Circuit'',
       ev_date = utc_seconds 1744575000, ev_series = ''IMSA'',
       ev_timing_url = ''https://www.imsa.com/scoring/''\<rparr>,
     \<lparr>ev_name = ''Laguna Seca'', ev_track = ''WeatherTech Raceway Laguna Seca'',
       ev_date = utc_seconds 1746389400, ev_series = ''IMSA'',
       ev_timing_url = ''https://www.imsa.com/scoring/''\<rparr>]"

text \<open>\<^verbatim>\<open>min(upcoming, key=lambda x: x['date'])\<close>: the first element with the least date.\<close>

fun min_by_date :: "race_info \<Rightarrow> race_info list \<Rightarrow> race_info" where
  "min_by_date best [] = best"
| "min_by_date best (r # rs) = min_by_date (if ev_date r < ev_date best then r else best) rs"

text \<open>
  \<open>get_next_race_in\<close> is the body of \<^verbatim>\<open>get_next_race\<close> with the list \<^verbatim>\<open>all_races\<close> and the
  clock reading as arguments; \<open>get_next_race\<close> fixes the list to the module's two schedules.
\<close>

definition get_next_race_in :: "race_info list \<Rightarrow> instant \<Rightarrow> race_info option" where
  "get_next_race_in all_races now =
     (case filter (\<lambda>race. ev_date race > now) all_races of
        [] \<Rightarrow> None
      | r # rs \<Rightarrow> Some (min_by_date r rs))"

definition get_next_race :: "instant \<Rightarrow> race_info option" where
  "get_next_race now = get_next_race_in (WEC_SCHEDULE @ IMSA_SCHEDULE) now"

text \<open>
  \<^verbatim>\<open>is_race_live\<close> of schedule.py (imported by the monitor, never called by it):
  \<^verbatim>\<open>0 <= (now - race_time).total_seconds() / 3600 <= tolerance_hours\<close>.
\<close>

definition total_seconds :: "int \<Rightarrow> rat" where
  "total_seconds delta = of_int delta / 1000000"

definition is_race_live :: "instant \<Rightarrow> race_info \<Rightarrow> int \<Rightarrow> bool" where
  "is_race_live now race tolerance_hours =
     (let time_diff = total_seconds (now - ev_date race) / 3600
      in 0 \<le> time_diff \<and> time_diff \<le> of_int tolerance_hours)"

subsection \<open>race_monitor.py: the liveness test of \<^verbatim>\<open>check_for_live_race\<close>\<close>

text \<open>
  \<^verbatim>\<open>time_diff = (now - race_time).total_seconds() / 60\<close> and
  \<^verbatim>\<open>is_live = -30 <= time_diff <= 720\<close>.
\<close>

definition time_diff_minutes :: "instant \<Rightarrow> instant \<Rightarrow> rat" where
  "time_diff_minutes now race_time = total_seconds (now - race_time) / 60"

definition is_live :: "instant \<Rightarrow> instant \<Rightarrow> bool" where
  "is_live now race_time =
     (let time_diff = time_diff_minutes now race_time
      in - 30 \<le> time_diff \<and> time_diff \<le> 720)"

text \<open>The two parameters of the liveness window, in microseconds.\<close>

definition of_minutes :: "int \<Rightarrow> int" where
  "of_minutes n = n * 60 * 1000000"

definition pre_roll :: int where
  "pre_roll = of_minutes 30"

definition max_duration :: int where
  "max_duration = of_minutes 720"

subsection \<open>ingest.py: \<^verbatim>\<open>DataIngestionManager\<close>\<close>

text \<open>
  The two scraper classes, with the resource each one owns: the aiohttp session of
  \<^verbatim>\<open>WECScraper\<close> (\<^verbatim>\<open>None\<close>, open, or closed but still referenced: \<^verbatim>\<open>close\<close> does not reset
  the attribute) and the Selenium driver of \<^verbatim>\<open>IMSAScraper\<close> (\<^verbatim>\<open>None\<close> or a driver).
\<close>

datatype session_state = NoSession | SessionOpen | SessionClosed

datatype scraper_obj = WECScraper session_state | IMSAScraper bool

record manager =
  mgr_series :: string
  scraper :: "scraper_obj option"
  mgr_is_running :: bool

text \<open>\<^verbatim>\<open>DataIngestionManager.__init__(self, series)\<close>.\<close>

definition DataIngestionManager :: "string \<Rightarrow> manager" where
  "DataIngestionManager series =
     \<lparr>mgr_series = series,
      scraper = (if series = ''WEC'' then Some (WECScraper NoSession)
                 else if series = ''IMSA'' then Some (IMSAScraper False)
                 else None),
      mgr_is_running = False\<rparr>"

text \<open>
  The dictionary a scraper returns: \<^verbatim>\<open>{}\<close>, or the keys \<^verbatim>\<open>series\<close>, \<^verbatim>\<open>timestamp\<close> and
  \<^verbatim>\<open>cars\<close>. The type of a car entry is left open here.
\<close>

datatype 'car timing_data = EmptyDict | Timing string string "'car list"

text \<open>The test \<^verbatim>\<open>data and data.get("cars")\<close>.\<close>

fun has_cars :: "'car timing_data \<Rightarrow> bool" where
  "has_cars EmptyDict = False"
| "has_cars (Timing series timestamp cars) = (cars \<noteq> [])"

text \<open>
  What one call of \<^verbatim>\<open>fetch_live_data\<close> does is decided outside: it returns a dictionary
  or it raises. One iteration of the loop also depends on whether the callback raises,
  and on whether \<^verbatim>\<open>stop_ingestion\<close> cleared \<^verbatim>\<open>is_running\<close> while the iteration was suspended.
\<close>

datatype 'car fetch_outcome = FetchRaises | FetchReturns "'car timing_data"

record 'car iteration =
  fetch_result :: "'car fetch_outcome"
  callback_raises :: bool
  stop_requested :: bool

datatype 'car event =
    FetchCall
  | Callback "'car timing_data"
  | LogInfo
  | LogError py_error
  | Sleep nat

text \<open>\<^verbatim>\<open>init_session\<close> and \<^verbatim>\<open>init_driver\<close>: acquire the resource unless it is there.\<close>

fun init_session :: "session_state \<Rightarrow> session_state" where
  "init_session NoSession = SessionOpen"
| "init_session s = s"

fun init_resource :: "scraper_obj \<Rightarrow> scraper_obj" where
  "init_resource (WECScraper s) = WECScraper (init_session s)"
| "init_resource (IMSAScraper d) = IMSAScraper True"

text \<open>
  The first statement of the \<^verbatim>\<open>try\<close> block:
  \<^verbatim>\<open>data = await self.scraper.fetch_live_data()\<close> when the series is WEC, and
  \<^verbatim>\<open>data = self.scraper.fetch_live_data()\<close> otherwise. Without a scraper the attribute
  lookup on \<^verbatim>\<open>None\<close> raises. A scraper of the other class than the series announces
  raises too: a dictionary is not awaitable, and a coroutine that is never awaited does
  not run and has no \<^verbatim>\<open>get\<close>. The result says whether the scraper's fetch ran, gives the
  scraper after the statement, and the exception or the data.
\<close>

definition loop_fetch :: "manager \<Rightarrow> 'car fetch_outcome
    \<Rightarrow> bool \<times> scraper_obj option \<times> (py_error + 'car timing_data)" where
  "loop_fetch mgr outcome =
     (case scraper mgr of
        None \<Rightarrow> (False, None, Inl AttributeError)
      | Some (WECScraper s) \<Rightarrow>
          if mgr_series mgr = ''WEC'' then
            (case outcome of
               FetchRaises \<Rightarrow> (True, Some (WECScraper s), Inl OtherError)
             | FetchReturns d \<Rightarrow> (True, Some (init_resource (WECScraper s)), Inr d))
          else (False, Some (WECScraper s), Inl AttributeError)
      | Some (IMSAScraper drv) \<Rightarrow>
          (case outcome of
             FetchRaises \<Rightarrow> (True, Some (IMSAScraper drv), Inl OtherError)
           | FetchReturns d \<Rightarrow>
               if mgr_series mgr = ''WEC''
               then (True, Some (init_resource (IMSAScraper drv)), Inl TypeError)
               else (True, Some (init_resource (IMSAScraper drv)), Inr d)))"

text \<open>
  One pass through the body of \<^verbatim>\<open>while self.is_running\<close>: the events it produces and the
  manager afterwards. Both the \<^verbatim>\<open>try\<close> block and the handler end with the sleep; the
  handler logs the exception it caught (\<open>OtherError\<close> stands for whatever the callback or
  the scraper raised).
\<close>

definition loop_body :: "nat \<Rightarrow> manager \<Rightarrow> 'car iteration \<Rightarrow> 'car event list \<times> manager" where
  "loop_body interval mgr it =
     (let (called, scr, r) = loop_fetch mgr (fetch_result it);
          pre = (if called then [FetchCall] else []);
          mgr1 = mgr\<lparr>scraper := scr\<rparr>
      in case r of
           Inl e \<Rightarrow> (pre @ [LogError e, Sleep interval], mgr1)
         | Inr data \<Rightarrow>
             (if has_cars data then
                (if callback_raises it
                 then (pre @ [Callback data, LogError OtherError, Sleep interval], mgr1)
                 else (pre @ [Callback data, LogInfo, Sleep interval], mgr1))
              else (pre @ [Sleep interval], mgr1)))"

text \<open>
  The loop over a finite prefix of the iterations the world supplies. It leaves the
  \<^verbatim>\<open>while\<close> only when \<^verbatim>\<open>is_running\<close> is found false (\<open>Exited\<close>); when the prefix is used up
  with \<^verbatim>\<open>is_running\<close> still true, the loop is still going (\<open>Running\<close>).
\<close>

datatype loop_status = Exited | Running

fun ingestion_loop :: "nat \<Rightarrow> manager \<Rightarrow> 'car iteration list
    \<Rightarrow> 'car event list \<times> manager \<times> loop_status" where
  "ingestion_loop interval mgr [] =
     ([], mgr, if mgr_is_running mgr then Running else Exited)"
| "ingestion_loop interval mgr (it # its) =
     (if \<not> mgr_is_running mgr then ([], mgr, Exited)
      else
        let (evs, mgr1) = loop_body interval mgr it;
            mgr2 = (if stop_requested it then mgr1\<lparr>mgr_is_running := False\<rparr> else mgr1);
            (rest, mgr3, st) = ingestion_loop interval mgr2 its
        in (evs @ rest, mgr3, st))"

text \<open>
  \<^verbatim>\<open>DataIngestionManager.start_ingestion(self, callback)\<close>; \<open>interval\<close> is the value of
  \<^verbatim>\<open>int(os.getenv("SCRAPE_INTERVAL", 10))\<close>.
\<close>

definition start_ingestion :: "nat \<Rightarrow> manager \<Rightarrow> 'car iteration list
    \<Rightarrow> 'car event list \<times> manager \<times> loop_status" where
  "start_ingestion interval mgr its =
     ingestion_loop interval (mgr\<lparr>mgr_is_running := True\<rparr>) its"

text \<open>\<^verbatim>\<open>WECScraper.close\<close> and \<^verbatim>\<open>IMSAScraper.close\<close>.\<close>

fun session_close :: "session_state \<Rightarrow> session_state" where
  "session_close NoSession = NoSession"
| "session_close s = SessionClosed"

fun scraper_close :: "scraper_obj \<Rightarrow> scraper_obj" where
  "scraper_close (WECScraper s) = WECScraper (session_close s)"
| "scraper_close (IMSAScraper d) = IMSAScraper False"

text \<open>
  \<^verbatim>\<open>DataIngestionManager.stop_ingestion(self)\<close>: the flag is cleared first, then
  \<^verbatim>\<open>self.scraper.close()\<close> is called (awaited when the series is WEC). The result is the
  exception that leaves the method, if any, and the manager afterwards. Awaiting the
  \<^verbatim>\<open>None\<close> that \<^verbatim>\<open>IMSAScraper.close\<close> returns raises after the driver has quit; the
  coroutine of \<^verbatim>\<open>WECScraper.close\<close>, when not awaited, never runs.
\<close>

definition stop_ingestion :: "manager \<Rightarrow> py_error option \<times> manager" where
  "stop_ingestion mgr =
     (let mgr1 = mgr\<lparr>mgr_is_running := False\<rparr>
      in case scraper mgr1 of
           None \<Rightarrow> (Some AttributeError, mgr1)
         | Some (WECScraper s) \<Rightarrow>
             if mgr_series mgr1 = ''WEC''
             then (None, mgr1\<lparr>scraper := Some (scraper_close (WECScraper s))\<rparr>)
             else (None, mgr1)
         | Some (IMSAScraper d) \<Rightarrow>
             if mgr_series mgr1 = ''WEC''
             then (Some TypeError, mgr1\<lparr>scraper := Some (scraper_close (IMSAScraper d))\<rparr>)
             else (None, mgr1\<lparr>scraper := Some (scraper_close (IMSAScraper d))\<rparr>))"

subsection \<open>Observations on a run of the loop\<close>

text \<open>The data passed to the callback, the sleeps, and the fetches of a run, in order.\<close>

fun callbacks :: "'car event list \<Rightarrow> 'car timing_data list" where
  "callbacks [] = []"
| "callbacks (Callback d # es) = d # callbacks es"
| "callbacks (e # es) = callbacks es"

fun sleeps :: "'car event list \<Rightarrow> nat list" where
  "sleeps [] = []"
| "sleeps (Sleep n # es) = n # sleeps es"
| "sleeps (e # es) = sleeps es"

fun fetch_calls :: "'car event list \<Rightarrow> nat" where
  "fetch_calls [] = 0"
| "fetch_calls (FetchCall # es) = Suc (fetch_calls es)"
| "fetch_calls (e # es) = fetch_calls es"

text \<open>The fetches and the callback invocations of a run, interleaved as they happened.\<close>

fun attempts :: "'car event list \<Rightarrow> 'car event list" where
  "attempts [] = []"
| "attempts (FetchCall # es) = FetchCall # attempts es"
| "attempts (Callback d # es) = Callback d # attempts es"
| "attempts (e # es) = attempts es"

text \<open>
  What the world supplied: the dictionaries of the fetches that returned a non-empty
  car list, in fetch order.
\<close>

fun delivered :: "'car iteration list \<Rightarrow> 'car timing_data list" where
  "delivered [] = []"
| "delivered (it # its) =
     (case fetch_result it of
        FetchRaises \<Rightarrow> delivered its
      | FetchReturns d \<Rightarrow> if has_cars d then d # delivered its else delivered its)"

text \<open>A fetch fails when it raises or returns the empty dictionary.\<close>

fun fetch_failed :: "'car fetch_outcome \<Rightarrow> bool" where
  "fetch_failed FetchRaises = True"
| "fetch_failed (FetchReturns EmptyDict) = True"
| "fetch_failed (FetchReturns (Timing series timestamp cars)) = False"

text \<open>An iteration during which nobody calls \<^verbatim>\<open>stop_ingestion\<close>.\<close>

definition iter :: "'car fetch_outcome \<Rightarrow> bool \<Rightarrow> 'car iteration" where
  "iter f c = \<lparr>fetch_result = f, callback_raises = c, stop_requested = False\<rparr>"

definition never_stopped :: "'car iteration list \<Rightarrow> bool" where
  "never_stopped its = list_all (\<lambda>it. \<not> stop_requested it) its"

text \<open>
  The manager holds the scraper class its series selects, as every manager built by
  the constructor for WEC or IMSA does.
\<close>

definition scraper_matches :: "manager \<Rightarrow> bool" where
  "scraper_matches mgr =
     (case scraper mgr of
        None \<Rightarrow> False
      | Some (WECScraper s) \<Rightarrow> mgr_series mgr = ''WEC''
      | Some (IMSAScraper d) \<Rightarrow> mgr_series mgr \<noteq> ''WEC'')"

subsection \<open>race_monitor.py: \<^verbatim>\<open>RaceMonitor\<close>\<close>

text \<open>A row of the table \<^verbatim>\<open>races\<close> (database.py) and the table, in row order.\<close>

record race =
  race_id :: nat
  race_series :: string
  race_name :: string
  race_track :: string
  start_time :: instant
  end_time :: "instant option"
  is_active :: bool

text \<open>The attributes of a \<^verbatim>\<open>RaceMonitor\<close>.\<close>

record monitor =
  ingestion_manager :: "manager option"
  current_race_name :: "string option"
  is_running :: bool
  check_interval :: nat

text \<open>\<^verbatim>\<open>RaceMonitor.__init__\<close>.\<close>

definition RaceMonitor :: monitor where
  "RaceMonitor =
     \<lparr>ingestion_manager = None, current_race_name = None, is_running = False,
      check_interval = 300\<rparr>"

text \<open>
  What the monitor does to the world outside its own attributes, in order: calls on the
  manager, committed changes of the table, calls of the exporter, tasks handed to the
  event loop, and the error lines of its exception handlers (the info and debug lines
  are left out).
\<close>

datatype action =
    ManagerStopCalled
  | StopFailedLogged
  | RaceEnded nat
  | ExportCalled nat
  | ExportFailedLogged
  | RaceCreated nat
  | StartFailedLogged
  | TaskCreated

record world =
  mon :: monitor
  db :: "race list"
  acts :: "action list"

text \<open>
  What one poll reads from outside: the clock in \<^verbatim>\<open>get_next_race\<close>, the clock in
  \<^verbatim>\<open>check_for_live_race\<close>, the clock in \<^verbatim>\<open>stop_ingestion\<close>, and whether
  \<^verbatim>\<open>export_race_to_json\<close> raises. The database session itself is taken to work.
\<close>

record poll_env =
  clock_schedule :: instant
  clock_check :: instant
  clock_stop :: instant
  export_raises :: bool

text \<open>
  \<^verbatim>\<open>race = db.query(Race).filter(Race.is_active == True).first()\<close>, and when there is one,
  \<^verbatim>\<open>race.is_active = False; race.end_time = now; db.commit()\<close>. The result is the table
  afterwards and the id of the row that was ended.
\<close>

fun end_first_active :: "instant \<Rightarrow> race list \<Rightarrow> race list \<times> nat option" where
  "end_first_active now [] = ([], None)"
| "end_first_active now (r # rs) =
     (if is_active r then (r\<lparr>end_time := Some now, is_active := False\<rparr> # rs, Some (race_id r))
      else (case end_first_active now rs of (rs', i) \<Rightarrow> (r # rs', i)))"

text \<open>
  \<^verbatim>\<open>RaceMonitor.stop_ingestion\<close>. Without a manager nothing happens. An exception from the
  manager's \<^verbatim>\<open>stop_ingestion\<close> is caught by the outer handler, which leaves the manager in
  place. Otherwise the first active row is ended and committed, then exported; an
  exception from the export is caught by the inner handler; the manager and the race
  name are cleared in both cases.
\<close>

definition monitor_stop_ingestion :: "poll_env \<Rightarrow> world \<Rightarrow> world" where
  "monitor_stop_ingestion env w =
     (case ingestion_manager (mon w) of
        None \<Rightarrow> w
      | Some mgr \<Rightarrow>
          (case stop_ingestion mgr of
             (Some e, mgr') \<Rightarrow>
               w\<lparr>mon := (mon w)\<lparr>ingestion_manager := Some mgr'\<rparr>,
                 acts := acts w @ [ManagerStopCalled, StopFailedLogged]\<rparr>
           | (None, mgr') \<Rightarrow>
               (case end_first_active (clock_stop env) (db w) of
                  (db', ended) \<Rightarrow>
                    w\<lparr>mon := (mon w)\<lparr>ingestion_manager := None, current_race_name := None\<rparr>,
                      db := db',
                      acts := acts w @ [ManagerStopCalled] @
                        (case ended of
                           None \<Rightarrow> []
                         | Some i \<Rightarrow>
                             [RaceEnded i, ExportCalled i] @
                             (if export_raises env then [ExportFailedLogged] else []))\<rparr>)))"

text \<open>\<^verbatim>\<open>RaceMonitor.stop_monitoring\<close>.\<close>

definition stop_monitoring :: "poll_env \<Rightarrow> world \<Rightarrow> world" where
  "stop_monitoring env w =
     monitor_stop_ingestion env (w\<lparr>mon := (mon w)\<lparr>is_running := False\<rparr>\<rparr>)"

text \<open>
  Binding the arguments of a call: every keyword supplied must be a parameter of the
  callee, and every parameter without a default must be supplied; otherwise the call
  raises \<open>TypeError\<close> before the callee's body runs.
\<close>

definition call_accepts :: "string list \<Rightarrow> string list \<Rightarrow> string list \<Rightarrow> bool" where
  "call_accepts params required supplied =
     (list_all (\<lambda>k. k \<in> set params) supplied \<and> list_all (\<lambda>k. k \<in> set supplied) required)"

text \<open>
  The signatures in ingest.py: \<^verbatim>\<open>__init__(self, series: str = "WEC")\<close> and
  \<^verbatim>\<open>start_ingestion(self, callback)\<close>; and the two calls in
  \<^verbatim>\<open>RaceMonitor.start_ingestion\<close>:
  \<^verbatim>\<open>DataIngestionManager(series=..., timing_url=...)\<close> and
  \<^verbatim>\<open>self.ingestion_manager.start_ingestion()\<close>.
\<close>

definition init_accepts_call :: bool where
  "init_accepts_call = call_accepts [''series''] [] [''series'', ''timing_url'']"

definition start_ingestion_accepts_call :: bool where
  "start_ingestion_accepts_call = call_accepts [''callback''] [''callback''] []"

text \<open>The id the table gives a new row: one more than the largest id in use.\<close>

definition next_id :: "race list \<Rightarrow> nat" where
  "next_id rows = Suc (fold max (map race_id rows) 0)"

text \<open>
  \<^verbatim>\<open>RaceMonitor.start_ingestion(race_info)\<close>: stop what is running, deactivate every row,
  add and commit an active row for the race, construct the manager, hand its loop to
  the event loop, and record the race name. Any exception ends the method in its
  handler, with the committed rows kept.
\<close>

definition monitor_start_ingestion :: "poll_env \<Rightarrow> race_info \<Rightarrow> world \<Rightarrow> world" where
  "monitor_start_ingestion env race_info w =
     (let w1 = monitor_stop_ingestion env w;
          i = next_id (db w1);
          row = \<lparr>race_id = i, race_series = ev_series race_info, race_name = ev_name race_info,
                 race_track = ev_track race_info, start_time = ev_date race_info,
                 end_time = None, is_active = True\<rparr>;
          w2 = w1\<lparr>db := map (\<lambda>r. r\<lparr>is_active := False\<rparr>) (db w1) @ [row],
                  acts := acts w1 @ [RaceCreated i]\<rparr>
      in if \<not> init_accepts_call then w2\<lparr>acts := acts w2 @ [StartFailedLogged]\<rparr>
         else
           let w3 = w2\<lparr>mon := (mon w2)\<lparr>ingestion_manager :=
                          Some (DataIngestionManager (ev_series race_info))\<rparr>\<rparr>
           in if \<not> start_ingestion_accepts_call then w3\<lparr>acts := acts w3 @ [StartFailedLogged]\<rparr>
              else w3\<lparr>mon := (mon w3)\<lparr>current_race_name := Some (ev_name race_info)\<rparr>,
                      acts := acts w3 @ [TaskCreated]\<rparr>)"

text \<open>
  \<^verbatim>\<open>RaceMonitor.check_for_live_race\<close>, with the schedule as an argument
  (\<open>check_for_live_race\<close> below fixes it to the module's).
\<close>

definition check_for_live_race_in :: "race_info list \<Rightarrow> poll_env \<Rightarrow> world \<Rightarrow> world" where
  "check_for_live_race_in all_races env w =
     (case get_next_race_in all_races (clock_schedule env) of
        None \<Rightarrow> monitor_stop_ingestion env w
      | Some next_race \<Rightarrow>
          if is_live (clock_check env) (ev_date next_race) then
            (if ingestion_manager (mon w) = None
                \<or> current_race_name (mon w) \<noteq> Some (ev_name next_race)
             then monitor_start_ingestion env next_race w
             else w)
          else
            (if ingestion_manager (mon w) \<noteq> None then monitor_stop_ingestion env w else w))"

definition check_for_live_race :: "poll_env \<Rightarrow> world \<Rightarrow> world" where
  "check_for_live_race env w = check_for_live_race_in (WEC_SCHEDULE @ IMSA_SCHEDULE) env w"



subsection \<open>Python's string methods and conversions on ASCII text\<close>

text \<open>
  Text is ASCII. \<open>is_space\<close> is \<^verbatim>\<open>str.isspace\<close>, used by \<^verbatim>\<open>strip()\<close> and \<^verbatim>\<open>split()\<close>;
  \<open>is_c_space\<close> is the narrower set that \<^verbatim>\<open>int()\<close> and \<^verbatim>\<open>float()\<close> skip at both ends.
\<close>

definition is_space :: "char \<Rightarrow> bool" where
  "is_space c = (c \<in> set [CHR 0x09, CHR 0x0A, CHR 0x0B, CHR 0x0C, CHR 0x0D,
                            CHR 0x1C, CHR 0x1D, CHR 0x1E, CHR 0x1F, CHR 0x20])"

definition is_c_space :: "char \<Rightarrow> bool" where
  "is_c_space c = (c \<in> set [CHR 0x09, CHR 0x0A, CHR 0x0B, CHR 0x0C, CHR 0x0D, CHR 0x20])"

definition strip_with :: "(char \<Rightarrow> bool) \<Rightarrow> string \<Rightarrow> string" where
  "strip_with p s = rev (dropWhile p (rev (dropWhile p s)))"


text \<open>Splitting at every character that satisfies \<open>p\<close>, empty pieces included.\<close>

fun split_where :: "(char \<Rightarrow> bool) \<Rightarrow> string \<Rightarrow> string list" where
  "split_where p [] = [[]]"
| "split_where p (c # cs) =
     (if p c then [] # split_where p cs
      else (case split_where p cs of [] \<Rightarrow> [[c]] | w # ws \<Rightarrow> (c # w) # ws))"


definition split_ws :: "string \<Rightarrow> string list" where
  "split_ws s = filter (\<lambda>w. w \<noteq> []) (split_where is_space s)"

text \<open>\<^verbatim>\<open>text.upper()\<close>, \<^verbatim>\<open>text.lower()\<close>, \<^verbatim>\<open>sub in text\<close> and \<^verbatim>\<open>text.replace(c, '')\<close>.\<close>

definition upper_char :: "char \<Rightarrow> char" where
  "upper_char c =
     (let n = (of_char c :: nat) in if 97 \<le> n \<and> n \<le> 122 then char_of (n - 32) else c)"

definition lower_char :: "char \<Rightarrow> char" where
  "lower_char c =
     (let n = (of_char c :: nat) in if 65 \<le> n \<and> n \<le> 90 then char_of (n + 32) else c)"

definition upper :: "string \<Rightarrow> string" where
  "upper s = map upper_char s"

definition lower :: "string \<Rightarrow> string" where
  "lower s = map lower_char s"

fun contains :: "string \<Rightarrow> string \<Rightarrow> bool" where
  "contains sub [] = (sub = [])"
| "contains sub (c # cs) = (take (length sub) (c # cs) = sub \<or> contains sub cs)"

definition remove_char :: "char \<Rightarrow> string \<Rightarrow> string" where
  "remove_char x s = filter (\<lambda>c. c \<noteq> x) s"

text \<open>
  A run of decimal digits in which single underscores may separate digits: its value
  and the number of its digits.
\<close>

definition is_digit :: "char \<Rightarrow> bool" where
  "is_digit c = (c \<in> set ''0123456789'')"

definition digit_val :: "char \<Rightarrow> nat" where
  "digit_val c = of_char c - 48"

fun more_digits :: "nat \<times> nat \<Rightarrow> string \<Rightarrow> (nat \<times> nat) option" where
  "more_digits (v, n) [] = Some (v, n)"
| "more_digits (v, n) [c] = (if is_digit c then Some (10 * v + digit_val c, Suc n) else None)"
| "more_digits (v, n) (c # d # cs) =
     (if is_digit c then more_digits (10 * v + digit_val c, Suc n) (d # cs)
      else if c = CHR ''_'' \<and> is_digit d then more_digits (10 * v + digit_val d, Suc n) cs
      else None)"

definition digitpart :: "string \<Rightarrow> (nat \<times> nat) option" where
  "digitpart s =
     (case s of
        [] \<Rightarrow> None
      | c # cs \<Rightarrow> if is_digit c then more_digits (digit_val c, 1) cs else None)"

text \<open>
  \<^verbatim>\<open>int(text)\<close>: \<open>None\<close> stands for the \<open>ValueError\<close>. The limit on the number of digits
  that recent interpreters impose (4300 by default) is not modelled.
\<close>

definition py_int :: "string \<Rightarrow> int option" where
  "py_int s =
     (case strip_with is_c_space s of
        [] \<Rightarrow> None
      | c # cs \<Rightarrow>
          if c = CHR ''+'' then map_option (\<lambda>(v, n). int v) (digitpart cs)
          else if c = CHR ''-'' then map_option (\<lambda>(v, n). - int v) (digitpart cs)
          else map_option (\<lambda>(v, n). int v) (digitpart (c # cs)))"

text \<open>
  Floats: a finite value is the exact rational denoted, not rounded to binary64; a
  result at or beyond \<open>2 ^ 1024 - 2 ^ 970\<close> in magnitude, where binary64 rounds to
  infinity, is the infinity.
\<close>

datatype pyfloat = Finite rat | PosInf | NegInf | NaN

definition float_overflow :: rat where
  "float_overflow = 2 ^ 1024 - 2 ^ 970"

definition to_float :: "rat \<Rightarrow> pyfloat" where
  "to_float q =
     (if float_overflow \<le> q then PosInf else if q \<le> - float_overflow then NegInf else Finite q)"

fun float_neg :: "pyfloat \<Rightarrow> pyfloat" where
  "float_neg (Finite q) = Finite (- q)"
| "float_neg PosInf = NegInf"
| "float_neg NegInf = PosInf"
| "float_neg NaN = NaN"




text \<open>
  \<^verbatim>\<open>float(text)\<close>: an optional sign, then \<^verbatim>\<open>inf\<close>, \<^verbatim>\<open>infinity\<close> or \<^verbatim>\<open>nan\<close> in any case, or
  a decimal number: digits with an optional fraction, or a fraction alone, and an
  optional exponent. \<open>mantissa\<close> gives the digits read as one integer and the number of
  fraction digits.
\<close>

definition mantissa :: "string \<Rightarrow> (nat \<times> nat) option" where
  "mantissa s =
     (let ip = takeWhile (\<lambda>c. c \<noteq> CHR ''.'') s;
          rest = dropWhile (\<lambda>c. c \<noteq> CHR ''.'') s
      in case rest of
           [] \<Rightarrow> map_option (\<lambda>(v, n). (v, 0)) (digitpart ip)
         | dot # fp \<Rightarrow>
             if ip = [] then digitpart fp
             else if fp = [] then map_option (\<lambda>(v, n). (v, 0)) (digitpart ip)
             else (case digitpart ip of
                     None \<Rightarrow> None
                   | Some (v, n) \<Rightarrow>
                       (case digitpart fp of
                          None \<Rightarrow> None
                        | Some (w, k) \<Rightarrow> Some (v * 10 ^ k + w, k))))"

definition exponent :: "string \<Rightarrow> int option" where
  "exponent s =
     (case s of
        [] \<Rightarrow> None
      | c # cs \<Rightarrow>
          if c = CHR ''+'' then map_option (\<lambda>(v, n). int v) (digitpart cs)
          else if c = CHR ''-'' then map_option (\<lambda>(v, n). - int v) (digitpart cs)
          else map_option (\<lambda>(v, n). int v) (digitpart (c # cs)))"

definition scale :: "rat \<Rightarrow> int \<Rightarrow> rat" where
  "scale q x = (if 0 \<le> x then q * 10 ^ nat x else q / 10 ^ nat (- x))"

definition float_number :: "string \<Rightarrow> rat option" where
  "float_number s =
     (let m = takeWhile (\<lambda>c. c \<noteq> CHR ''e'' \<and> c \<noteq> CHR ''E'') s;
          rest = dropWhile (\<lambda>c. c \<noteq> CHR ''e'' \<and> c \<noteq> CHR ''E'') s
      in case mantissa m of
           None \<Rightarrow> None
         | Some (v, k) \<Rightarrow>
             (case rest of
                [] \<Rightarrow> Some (of_nat v / 10 ^ k)
              | e # ex \<Rightarrow> map_option (scale (of_nat v / 10 ^ k)) (exponent ex)))"

definition float_literal :: "string \<Rightarrow> pyfloat option" where
  "float_literal s =
     (if lower s = ''inf'' \<or> lower s = ''infinity'' then Some PosInf
      else if lower s = ''nan'' then Some NaN
      else map_option to_float (float_number s))"

definition py_float :: "string \<Rightarrow> pyfloat option" where
  "py_float s =
     (case strip_with is_c_space s of
        [] \<Rightarrow> None
      | c # cs \<Rightarrow>
          if c = CHR ''+'' then float_literal cs
          else if c = CHR ''-'' then map_option float_neg (float_literal cs)
          else float_literal (c # cs))"

subsection \<open>ingest.py: \<^verbatim>\<open>WECScraper\<close>\<close>

text \<open>
  What \<^verbatim>\<open>element.select_one(selector)\<close> and the access to \<^verbatim>\<open>.text\<close> give for a timing
  row: an exception, no element, or the element's text. A row lists the answers for
  the selectors that find something or raise, and its CSS classes.
\<close>

datatype sel_result = SelRaises | SelMissing | SelText string

record row =
  cells :: "(string \<times> sel_result) list"
  classes :: "string list"







text \<open>
  \<^verbatim>\<open>_safe_extract_gap\<close>, from the extracted text on. The result is the float \<^verbatim>\<open>0.0\<close>, the
  int \<^verbatim>\<open>laps * 100\<close>, a float, or \<^verbatim>\<open>None\<close>.
\<close>

datatype pynum = IntVal int | FloatVal pyfloat

definition gap_of_text :: "string option \<Rightarrow> pynum option" where
  "gap_of_text t =
     (case t of
        None \<Rightarrow> Some (FloatVal (Finite 0))
      | Some text \<Rightarrow>
          if text = [] \<or> text = ''Leader'' then Some (FloatVal (Finite 0))
          else if contains ''LAP'' (upper text) then
            (case split_ws text of
               [] \<Rightarrow> None
             | w # ws \<Rightarrow> map_option (\<lambda>laps. IntVal (laps * 100)) (py_int (remove_char CHR ''+'' w)))
          else map_option FloatVal (py_float (remove_char CHR ''+'' text)))"








subsection \<open>Renderings of times and gaps\<close>












section \<open>Properties\<close>

subsection \<open>Liveness window\<close>

lemma time_diff_minutes_le: "time_diff_minutes now st \<le> of_int k \<longleftrightarrow> now - st \<le> of_minutes k"
proof -
  have "time_diff_minutes now st \<le> of_int k \<longleftrightarrow> (of_int (now - st) :: rat) \<le> of_int k * 60000000"
    by (simp add: time_diff_minutes_def total_seconds_def field_simps)
  also have "\<dots> \<longleftrightarrow> (of_int (now - st) :: rat) \<le> of_int (k * 60000000)"
    by simp
  also have "\<dots> \<longleftrightarrow> now - st \<le> k * 60000000"
    by (simp only: of_int_le_iff)
  finally show ?thesis by (simp add: of_minutes_def mult.commute)
qed

lemma time_diff_minutes_ge: "of_int k \<le> time_diff_minutes now st \<longleftrightarrow> of_minutes k \<le> now - st"
proof -
  have "of_int k \<le> time_diff_minutes now st \<longleftrightarrow> (of_int k * 60000000 :: rat) \<le> of_int (now - st)"
    by (simp add: time_diff_minutes_def total_seconds_def field_simps)
  also have "\<dots> \<longleftrightarrow> (of_int (k * 60000000) :: rat) \<le> of_int (now - st)"
    by simp
  also have "\<dots> \<longleftrightarrow> k * 60000000 \<le> now - st"
    by (simp only: of_int_le_iff)
  finally show ?thesis by (simp add: of_minutes_def mult.commute)
qed

lemma is_live_iff: "is_live now st \<longleftrightarrow> - of_minutes 30 \<le> now - st \<and> now - st \<le> of_minutes 720"
proof -
  have a: "(- 30 \<le> time_diff_minutes now st) \<longleftrightarrow> of_minutes (- 30) \<le> now - st"
    using time_diff_minutes_ge [of "- 30" now st] by simp
  have b: "(time_diff_minutes now st \<le> 720) \<longleftrightarrow> now - st \<le> of_minutes 720"
    using time_diff_minutes_le [of now st 720] by simp
  show ?thesis
    unfolding is_live_def Let_def a b by (simp add: of_minutes_def)
qed

text \<open>
  C3. For all instants \<open>now\<close> and \<open>scheduled_start\<close> the monitor's test classifies the
  event as live exactly when \<open>- pre_roll \<le> now - scheduled_start \<le> max_duration\<close>, with
  a pre-roll of 30 minutes and a maximal duration of 720 minutes, and both ends of the
  interval are live.
\<close>

theorem C3_liveness_closed_interval:
  "(is_live now scheduled_start \<longleftrightarrow>
      - pre_roll \<le> now - scheduled_start \<and> now - scheduled_start \<le> max_duration)
   \<and> is_live (scheduled_start - pre_roll) scheduled_start
   \<and> is_live (scheduled_start + max_duration) scheduled_start
   \<and> pre_roll = 30 * 60 * 1000000 \<and> max_duration = 720 * 60 * 1000000"
  by (simp add: is_live_iff pre_roll_def max_duration_def of_minutes_def)

text \<open>
  The window of \<^verbatim>\<open>is_race_live\<close> in schedule.py, which the monitor does not use, has the
  same upper end but starts at the scheduled start.
\<close>

lemma is_race_live_iff:
  "is_race_live now race 12 \<longleftrightarrow> 0 \<le> now - ev_date race \<and> now - ev_date race \<le> of_minutes 720"
proof -
  let ?d = "now - ev_date race"
  have a: "(0 \<le> total_seconds ?d / 3600) \<longleftrightarrow> 0 \<le> ?d"
    by (simp add: total_seconds_def zero_le_divide_iff)
  have "(total_seconds ?d / 3600 \<le> 12) \<longleftrightarrow> (of_int ?d :: rat) \<le> of_int 43200000000"
    by (simp add: total_seconds_def field_simps)
  also have "\<dots> \<longleftrightarrow> ?d \<le> 43200000000" by (simp only: of_int_le_iff)
  finally have b: "(total_seconds ?d / 3600 \<le> 12) \<longleftrightarrow> ?d \<le> of_minutes 720"
    by (simp add: of_minutes_def)
  show ?thesis unfolding is_race_live_def Let_def using a b by simp
qed

lemma windows_differ_before_start:
  "ev_date race = st \<Longrightarrow>
   is_live (st - of_minutes 10) st \<and> \<not> is_race_live (st - of_minutes 10) race 12"
  by (simp add: is_live_iff is_race_live_iff of_minutes_def)

subsection \<open>The ingestion loop\<close>

lemma callbacks_append: "callbacks (xs @ ys) = callbacks xs @ callbacks ys"
  by (induction xs rule: callbacks.induct) simp_all

lemma sleeps_append: "sleeps (xs @ ys) = sleeps xs @ sleeps ys"
  by (induction xs rule: sleeps.induct) simp_all

lemma fetch_calls_append: "fetch_calls (xs @ ys) = fetch_calls xs + fetch_calls ys"
  by (induction xs rule: fetch_calls.induct) simp_all

lemma loop_body_running: "mgr_is_running (snd (loop_body i mgr it)) = mgr_is_running mgr"
  by (simp add: loop_body_def Let_def split: prod.splits sum.splits)

lemma loop_body_series: "mgr_series (snd (loop_body i mgr it)) = mgr_series mgr"
  by (simp add: loop_body_def Let_def split: prod.splits sum.splits)

lemma loop_body_sleeps: "sleeps (fst (loop_body i mgr it)) = [i]"
  by (simp add: loop_body_def Let_def sleeps_append split: prod.splits sum.splits)

lemma loop_body_matches:
  "scraper_matches mgr \<Longrightarrow> scraper_matches (snd (loop_body i mgr it))"
  by (cases "fetch_result it")
     (auto simp: loop_body_def loop_fetch_def scraper_matches_def Let_def
        split: option.splits scraper_obj.splits session_state.splits sum.splits)

lemma loop_body_callbacks:
  "scraper_matches mgr \<Longrightarrow> callbacks (fst (loop_body i mgr it)) = delivered [it]"
  by (cases "fetch_result it")
     (auto simp: loop_body_def loop_fetch_def scraper_matches_def Let_def
        split: option.splits scraper_obj.splits)

lemma loop_body_fetch_calls:
  "scraper_matches mgr \<Longrightarrow> fetch_calls (fst (loop_body i mgr it)) = 1"
  by (cases "fetch_result it")
     (auto simp: loop_body_def loop_fetch_def scraper_matches_def Let_def
        split: option.splits scraper_obj.splits)

lemma delivered_Cons: "delivered (it # its) = delivered [it] @ delivered its"
  by (simp split: fetch_outcome.splits)

lemma ingestion_loop_no_stop:
  "scraper_matches mgr \<Longrightarrow> mgr_is_running mgr \<Longrightarrow> never_stopped its \<Longrightarrow>
   ingestion_loop i mgr its = (evs, mgr', st) \<Longrightarrow>
   st = Running \<and> mgr_is_running mgr' \<and> scraper_matches mgr' \<and>
   callbacks evs = delivered its \<and> sleeps evs = replicate (length its) i \<and>
   fetch_calls evs = length its"
proof (induction its arbitrary: mgr evs mgr' st)
  case Nil
  then show ?case by simp
next
  case (Cons it its)
  obtain e1 m1 where b: "loop_body i mgr it = (e1, m1)" by (cases "loop_body i mgr it")
  obtain e2 m2 s2 where r: "ingestion_loop i m1 its = (e2, m2, s2)"
    by (cases "ingestion_loop i m1 its")
  have m1: "scraper_matches m1" "mgr_is_running m1"
    using loop_body_matches [OF Cons.prems(1), of i it] loop_body_running [of i mgr it]
      Cons.prems(2) b by simp_all
  have ns: "never_stopped its" "\<not> stop_requested it"
    using Cons.prems(3) by (simp_all add: never_stopped_def)
  have ih: "s2 = Running \<and> mgr_is_running m2 \<and> scraper_matches m2 \<and>
     callbacks e2 = delivered its \<and> sleeps e2 = replicate (length its) i \<and>
     fetch_calls e2 = length its"
    using Cons.IH [OF m1 ns(1) r] .
  have res: "evs = e1 @ e2" "mgr' = m2" "st = s2"
    using Cons.prems(2,4) b r ns(2) by simp_all
  have e1: "callbacks e1 = delivered [it]" "sleeps e1 = [i]" "fetch_calls e1 = 1"
    using loop_body_callbacks [OF Cons.prems(1), of i it] loop_body_sleeps [of i mgr it]
      loop_body_fetch_calls [OF Cons.prems(1), of i it] b by simp_all
  show ?case
    using ih e1 res delivered_Cons [of it its]
    by (simp add: callbacks_append sleeps_append fetch_calls_append)
qed


lemma attempts_append: "attempts (xs @ ys) = attempts xs @ attempts ys"
  by (induction xs rule: attempts.induct) simp_all

lemma loop_body_attempts_failed:
  "scraper_matches mgr \<Longrightarrow> fetch_failed f \<Longrightarrow>
   attempts (fst (loop_body i mgr (iter f c))) = [FetchCall]"
  by (cases f rule: fetch_failed.cases)
     (auto simp: loop_body_def loop_fetch_def scraper_matches_def iter_def Let_def
        split: option.splits scraper_obj.splits)

lemma loop_body_attempts_ok:
  "scraper_matches mgr \<Longrightarrow> has_cars d \<Longrightarrow>
   attempts (fst (loop_body i mgr (iter (FetchReturns d) c))) = [FetchCall, Callback d]"
  by (auto simp: loop_body_def loop_fetch_def scraper_matches_def iter_def Let_def
        split: option.splits scraper_obj.splits)

lemma three_attempts:
  assumes m: "scraper_matches mgr" and r: "mgr_is_running mgr"
    and f: "fetch_failed f1" "fetch_failed f2" and d: "has_cars d"
  shows "attempts (fst (ingestion_loop i mgr [iter f1 c1, iter f2 c2, iter (FetchReturns d) c3]))
     = [FetchCall, FetchCall, FetchCall, Callback d]"
proof -
  obtain e1 m1 where b1: "loop_body i mgr (iter f1 c1) = (e1, m1)"
    by (cases "loop_body i mgr (iter f1 c1)")
  obtain e2 m2 where b2: "loop_body i m1 (iter f2 c2) = (e2, m2)"
    by (cases "loop_body i m1 (iter f2 c2)")
  obtain e3 m3 where b3: "loop_body i m2 (iter (FetchReturns d) c3) = (e3, m3)"
    by (cases "loop_body i m2 (iter (FetchReturns d) c3)")
  have m1: "scraper_matches m1" "mgr_is_running m1"
    using loop_body_matches [OF m, of i "iter f1 c1"] loop_body_running [of i mgr "iter f1 c1"] r b1
    by simp_all
  have m2: "scraper_matches m2" "mgr_is_running m2"
    using loop_body_matches [OF m1(1), of i "iter f2 c2"] loop_body_running [of i m1 "iter f2 c2"]
      m1(2) b2 by simp_all
  have a1: "attempts e1 = [FetchCall]"
    using loop_body_attempts_failed [OF m f(1), of i c1] b1 by simp
  have a2: "attempts e2 = [FetchCall]"
    using loop_body_attempts_failed [OF m1(1) f(2), of i c2] b2 by simp
  have a3: "attempts e3 = [FetchCall, Callback d]"
    using loop_body_attempts_ok [OF m2(1) d, of i c3] b3 by simp
  have ns: "\<not> stop_requested (iter f c)" for f :: "'a fetch_outcome" and c
    by (simp add: iter_def)
  have "fst (ingestion_loop i mgr [iter f1 c1, iter f2 c2, iter (FetchReturns d) c3])
      = e1 @ e2 @ e3"
    using r m1(2) m2(2) b1 b2 b3 ns by (simp add: Let_def split: prod.splits)
  then show ?thesis using a1 a2 a3 by (simp add: attempts_append)
qed

lemma never_stopped_iter: "never_stopped [iter f1 c1, iter f2 c2, iter f3 c3]"
  by (simp add: never_stopped_def iter_def)

text \<open>
  C2. With a scraper bound and nobody stopping it, the loop outlives every sequence of
  fetch outcomes: it is still running after the last one, it fetched and slept for the
  configured interval once per iteration whether the fetch failed or not, and the
  callback received exactly the dictionaries of the fetches that returned a non-empty
  car list, in fetch order. In particular, after two failed fetches and a third that
  succeeds, the callback has run once, after the third fetch, and the loop goes on.
\<close>

theorem C2_loop_survives_fetch_failures:
  assumes "scraper_matches mgr"
  shows "(never_stopped (its :: 'car iteration list) \<longrightarrow>
            (case start_ingestion interval mgr its of
               (evs, mgr', st) \<Rightarrow>
                 st = Running \<and> mgr_is_running mgr' \<and>
                 fetch_calls evs = length its \<and>
                 sleeps evs = replicate (length its) interval \<and>
                 callbacks evs = delivered its))
       \<and> (fetch_failed f1 \<and> fetch_failed f2 \<and> has_cars (d :: 'car timing_data) \<longrightarrow>
            (case start_ingestion interval mgr
                    [iter f1 c1, iter f2 c2, iter (FetchReturns d) c3] of
               (evs, mgr', st) \<Rightarrow>
                 attempts evs = [FetchCall, FetchCall, FetchCall, Callback d] \<and>
                 st = Running \<and> mgr_is_running mgr'))"
proof -
  let ?m = "mgr\<lparr>mgr_is_running := True\<rparr>"
  have m: "scraper_matches ?m" "mgr_is_running ?m"
    using assms by (simp_all add: scraper_matches_def split: option.splits scraper_obj.splits)
  have gen: "st = Running \<and> mgr_is_running mgr' \<and> fetch_calls evs = length xs \<and>
      sleeps evs = replicate (length xs) interval \<and> callbacks evs = delivered xs"
    if "never_stopped xs" "start_ingestion interval mgr xs = (evs, mgr', st)"
    for xs :: "'car iteration list" and evs mgr' st
    using ingestion_loop_no_stop [OF m that(1), of interval evs mgr' st] that(2)
    by (simp add: start_ingestion_def)
  have one: "never_stopped its \<longrightarrow>
            (case start_ingestion interval mgr its of
               (evs, mgr', st) \<Rightarrow>
                 st = Running \<and> mgr_is_running mgr' \<and>
                 fetch_calls evs = length its \<and>
                 sleeps evs = replicate (length its) interval \<and>
                 callbacks evs = delivered its)"
    using gen [of its] by (cases "start_ingestion interval mgr its") simp
  let ?xs = "[iter f1 c1, iter f2 c2, iter (FetchReturns d) c3]"
  have two: "fetch_failed f1 \<and> fetch_failed f2 \<and> has_cars d \<longrightarrow>
            (case start_ingestion interval mgr ?xs of
               (evs, mgr', st) \<Rightarrow>
                 attempts evs = [FetchCall, FetchCall, FetchCall, Callback d] \<and>
                 st = Running \<and> mgr_is_running mgr')"
  proof
    assume h: "fetch_failed f1 \<and> fetch_failed f2 \<and> has_cars d"
    obtain evs mgr' st where s: "start_ingestion interval mgr ?xs = (evs, mgr', st)"
      by (cases "start_ingestion interval mgr ?xs")
    have g: "st = Running \<and> mgr_is_running mgr'"
      using gen [OF never_stopped_iter s] by simp
    have "attempts evs = [FetchCall, FetchCall, FetchCall, Callback d]"
      using three_attempts [OF m, of f1 f2 d interval c1 c2 c3] h s
      by (simp add: start_ingestion_def)
    with g s show "case start_ingestion interval mgr ?xs of
               (evs, mgr', st) \<Rightarrow>
                 attempts evs = [FetchCall, FetchCall, FetchCall, Callback d] \<and>
                 st = Running \<and> mgr_is_running mgr'"
      by simp
  qed
  from one two show ?thesis by blast
qed


theorem C2_loop_survives_fetch_failures_witness:
  "scraper_matches (DataIngestionManager ''WEC'')
   \<and> never_stopped [iter FetchRaises False, iter (FetchReturns EmptyDict) True,
         iter (FetchReturns (Timing ''WEC'' ''2025-06-14T15:00:00'' [()])) False]
   \<and> fetch_failed (FetchRaises :: unit fetch_outcome)
   \<and> fetch_failed (FetchReturns EmptyDict :: unit fetch_outcome)
   \<and> has_cars (Timing ''WEC'' ''2025-06-14T15:00:00'' [()])
   \<and> (case start_ingestion 1 (DataIngestionManager ''WEC'')
              [iter FetchRaises False, iter (FetchReturns EmptyDict) True,
               iter (FetchReturns (Timing ''WEC'' ''2025-06-14T15:00:00'' [()])) False] of
         (evs, mgr', st) \<Rightarrow>
           attempts evs = [FetchCall, FetchCall, FetchCall,
                           Callback (Timing ''WEC'' ''2025-06-14T15:00:00'' [()])] \<and>
           st = Running \<and> mgr_is_running mgr' \<and>
           fetch_calls evs = 3 \<and> sleeps evs = [1, 1, 1] \<and>
           callbacks evs = [Timing ''WEC'' ''2025-06-14T15:00:00'' [()]])"
proof -
  let ?d = "Timing ''WEC'' ''2025-06-14T15:00:00'' [()]"
  let ?its = "[iter FetchRaises False, iter (FetchReturns EmptyDict) True,
               iter (FetchReturns ?d) False]"
  have m: "scraper_matches (DataIngestionManager ''WEC'')"
    by (simp add: scraper_matches_def DataIngestionManager_def)
  have n: "never_stopped ?its"
    by (simp add: never_stopped_def iter_def)
  have f: "fetch_failed (FetchRaises :: unit fetch_outcome)"
    "fetch_failed (FetchReturns EmptyDict :: unit fetch_outcome)" "has_cars ?d"
    by simp_all
  have k: "delivered ?its = [?d]" "replicate (length ?its) (1::nat) = [1, 1, 1]"
    "length ?its = 3"
    by (simp_all add: iter_def numeral_3_eq_3)
  show ?thesis
    using C2_loop_survives_fetch_failures [OF m, of ?its 1 FetchRaises "FetchReturns EmptyDict"
        ?d False True False] m n f
    unfolding k
    by (simp add: numeral_3_eq_3 split: prod.splits)
qed

subsection \<open>A manager without a scraper\<close>

lemma loop_body_no_scraper:
  "scraper mgr = None \<Longrightarrow> loop_body i mgr it = ([LogError AttributeError, Sleep i], mgr)"
  by (simp add: loop_body_def loop_fetch_def)

lemma ingestion_loop_no_scraper:
  "scraper mgr = None \<Longrightarrow> ingestion_loop i mgr its = (evs, mgr', st) \<Longrightarrow>
   scraper mgr' = None \<and>
   (\<exists>k\<le>length its. evs = concat (replicate k [LogError AttributeError, Sleep i])) \<and>
   (never_stopped its \<and> mgr_is_running mgr \<longrightarrow>
      evs = concat (replicate (length its) [LogError AttributeError, Sleep i]) \<and> st = Running)"
proof (induction its arbitrary: mgr evs mgr' st)
  case Nil
  then show ?case by (auto simp: never_stopped_def)
next
  case (Cons it its)
  show ?case
  proof (cases "mgr_is_running mgr")
    case False
    then have "evs = []" "mgr' = mgr" using Cons.prems(2) by simp_all
    then show ?thesis using Cons.prems(1) False
      by (auto intro: exI [of _ 0])
  next
    case True
    let ?m = "if stop_requested it then mgr\<lparr>mgr_is_running := False\<rparr> else mgr"
    obtain e2 m2 s2 where r: "ingestion_loop i ?m its = (e2, m2, s2)"
      by (cases "ingestion_loop i ?m its")
    have sc: "scraper ?m = None" using Cons.prems(1) by simp
    have res: "evs = [LogError AttributeError, Sleep i] @ e2" "mgr' = m2" "st = s2"
      using Cons.prems(2) True r loop_body_no_scraper [OF Cons.prems(1), of i it]
      by (simp_all add: Let_def)
    note ih = Cons.IH [OF sc r]
    from ih obtain k where k: "k \<le> length its"
      "e2 = concat (replicate k [LogError AttributeError, Sleep i])" by blast
    have ex: "\<exists>k\<le>length (it # its). evs = concat (replicate k [LogError AttributeError, Sleep i])"
      using k res(1) by (intro exI [of _ "Suc k"]) simp
    have full: "never_stopped (it # its) \<and> mgr_is_running mgr \<longrightarrow>
      evs = concat (replicate (length (it # its)) [LogError AttributeError, Sleep i]) \<and> st = Running"
      using ih res True by (auto simp: never_stopped_def)
    show ?thesis using ih ex full res(2) by blast
  qed
qed

lemma concat_replicate_observed:
  "callbacks (concat (replicate k [LogError e, Sleep i])) = []"
  "fetch_calls (concat (replicate k [LogError e, Sleep i])) = 0"
  by (induction k) simp_all

lemma stop_ingestion_no_scraper:
  "scraper mgr = None \<Longrightarrow> fst (stop_ingestion mgr) = Some AttributeError"
  by (simp add: stop_ingestion_def)

text \<open>
  C10. A manager constructed for a series other than WEC and IMSA has no scraper. Its
  loop performs no fetch and never invokes the callback: every iteration it runs
  consists of catching the \<open>AttributeError\<close> and sleeping. \<^verbatim>\<open>stop_ingestion\<close> on such a
  manager, before or after the loop ran, lets the \<open>AttributeError\<close> of the call of
  \<^verbatim>\<open>close\<close> on \<^verbatim>\<open>None\<close> escape.
\<close>

theorem C10_manager_without_scraper:
  assumes "series \<noteq> ''WEC''" and "series \<noteq> ''IMSA''"
  shows "scraper (DataIngestionManager series) = None
     \<and> (case start_ingestion interval (DataIngestionManager series) its of
          (evs, mgr', st) \<Rightarrow>
            (\<exists>k\<le>length its. evs = concat (replicate k [LogError AttributeError, Sleep interval]))
            \<and> callbacks evs = [] \<and> fetch_calls evs = 0
            \<and> (never_stopped its \<longrightarrow>
                 evs = concat (replicate (length its) [LogError AttributeError, Sleep interval])
                 \<and> st = Running)
            \<and> fst (stop_ingestion mgr') = Some AttributeError)
     \<and> fst (stop_ingestion (DataIngestionManager series)) = Some AttributeError"
proof -
  have n: "scraper (DataIngestionManager series) = None"
    using assms by (simp add: DataIngestionManager_def)
  let ?m = "(DataIngestionManager series)\<lparr>mgr_is_running := True\<rparr>"
  have n': "scraper ?m = None" "mgr_is_running ?m" using n by simp_all
  obtain evs mgr' st where s: "ingestion_loop interval ?m its = (evs, mgr', st)"
    by (cases "ingestion_loop interval ?m its")
  note l = ingestion_loop_no_scraper [OF n'(1) s]
  from l obtain k where k: "k \<le> length its"
    "evs = concat (replicate k [LogError AttributeError, Sleep interval])" by blast
  have obs: "callbacks evs = []" "fetch_calls evs = 0"
    unfolding k(2) by (rule concat_replicate_observed)+
  have st: "fst (stop_ingestion mgr') = Some AttributeError"
    using l stop_ingestion_no_scraper by blast
  show ?thesis
    using n s l n'(2) obs st stop_ingestion_no_scraper [OF n]
    by (simp add: start_ingestion_def)
qed

theorem C10_manager_without_scraper_witness:
  "''FMSCI'' \<noteq> ''WEC'' \<and> ''FMSCI'' \<noteq> ''IMSA''
   \<and> scraper (DataIngestionManager ''FMSCI'') = None
   \<and> start_ingestion 10 (DataIngestionManager ''FMSCI'')
        [iter (FetchReturns (Timing ''WEC'' ''t'' [()])) False, iter FetchRaises False]
      = ([LogError AttributeError, Sleep 10, LogError AttributeError, Sleep 10],
         \<lparr>mgr_series = ''FMSCI'', scraper = None, mgr_is_running = True\<rparr>, Running)
   \<and> stop_ingestion (DataIngestionManager ''FMSCI'')
      = (Some AttributeError, \<lparr>mgr_series = ''FMSCI'', scraper = None, mgr_is_running = False\<rparr>)"
proof -
  have h: "''FMSCI'' \<noteq> ''WEC''" "''FMSCI'' \<noteq> ''IMSA''" by simp_all
  have e: "start_ingestion 10 (DataIngestionManager ''FMSCI'')
        [iter (FetchReturns (Timing ''WEC'' ''t'' [()])) False, iter FetchRaises False]
      = ([LogError AttributeError, Sleep 10, LogError AttributeError, Sleep 10],
         \<lparr>mgr_series = ''FMSCI'', scraper = None, mgr_is_running = True\<rparr>, Running)"
    by (simp add: start_ingestion_def DataIngestionManager_def loop_body_def loop_fetch_def
        iter_def)
  have s: "stop_ingestion (DataIngestionManager ''FMSCI'')
      = (Some AttributeError, \<lparr>mgr_series = ''FMSCI'', scraper = None, mgr_is_running = False\<rparr>)"
    by (simp add: stop_ingestion_def DataIngestionManager_def)
  show ?thesis
    using C10_manager_without_scraper [OF h, where interval = 10 and its =
        "[iter (FetchReturns (Timing ''WEC'' ''t'' [()])) False, iter FetchRaises False]"] e s
    by simp
qed

subsection \<open>Repeated start and stop\<close>

lemma session_close_idem: "session_close (session_close s) = session_close s"
  by (cases s) simp_all

lemma stop_ingestion_idem:
  "fst (stop_ingestion mgr) = None \<Longrightarrow>
   stop_ingestion (snd (stop_ingestion mgr)) = (None, snd (stop_ingestion mgr))"
  by (auto simp: stop_ingestion_def Let_def session_close_idem
      split: option.splits scraper_obj.splits if_splits)

lemma stop_ingestion_fresh:
  "series = ''WEC'' \<or> series = ''IMSA'' \<Longrightarrow>
   stop_ingestion (DataIngestionManager series) = (None, DataIngestionManager series)"
  by (auto simp: stop_ingestion_def DataIngestionManager_def)

lemma start_ingestion_running_fetches:
  assumes "scraper_matches mgr" and "never_stopped its"
  shows "fetch_calls (fst (start_ingestion interval mgr its)) = length its"
proof -
  let ?m = "mgr\<lparr>mgr_is_running := True\<rparr>"
  have m: "scraper_matches ?m" "mgr_is_running ?m"
    using assms(1) by (simp_all add: scraper_matches_def split: option.splits scraper_obj.splits)
  obtain evs mgr' st where s: "ingestion_loop interval ?m its = (evs, mgr', st)"
    by (cases "ingestion_loop interval ?m its")
  show ?thesis
    using ingestion_loop_no_stop [OF m assms(2) s] s by (simp add: start_ingestion_def)
qed

text \<open>
  C9, as stated, fails for \<^verbatim>\<open>start\<close>: on a manager whose loop is already running, another
  call of \<^verbatim>\<open>start_ingestion\<close> is not a no-op. It fetches and invokes the callback like the
  first call.
\<close>

theorem C9_second_start_counterexample:
  "mgr_is_running \<lparr>mgr_series = ''WEC'', scraper = Some (WECScraper SessionOpen),
                    mgr_is_running = True\<rparr>
   \<and> start_ingestion 10
        \<lparr>mgr_series = ''WEC'', scraper = Some (WECScraper SessionOpen), mgr_is_running = True\<rparr>
        [iter (FetchReturns (Timing ''WEC'' ''2025-06-14T15:00:00'' [()])) False]
      = ([FetchCall, Callback (Timing ''WEC'' ''2025-06-14T15:00:00'' [()]), LogInfo, Sleep 10],
         \<lparr>mgr_series = ''WEC'', scraper = Some (WECScraper SessionOpen), mgr_is_running = True\<rparr>,
         Running)"
  by (simp add: start_ingestion_def loop_body_def loop_fetch_def iter_def)

text \<open>
  C9, amended. \<^verbatim>\<open>stop_ingestion\<close> on a stopped manager changes nothing: a second call after
  a first one that returned, or a call on a freshly constructed WEC or IMSA manager,
  returns the manager as it was. \<^verbatim>\<open>start_ingestion\<close> has no guard: it does not look at
  \<^verbatim>\<open>is_running\<close> before setting it, so a call on a running manager runs a fetch loop of
  its own, with one fetch per iteration.
\<close>

theorem C9_stop_idempotent_start_unguarded:
  "(fst (stop_ingestion mgr) = None \<longrightarrow>
      stop_ingestion (snd (stop_ingestion mgr)) = (None, snd (stop_ingestion mgr)))
   \<and> (series = ''WEC'' \<or> series = ''IMSA'' \<longrightarrow>
      stop_ingestion (DataIngestionManager series) = (None, DataIngestionManager series))
   \<and> (mgr_is_running mgr \<and> scraper_matches mgr \<and> never_stopped its \<longrightarrow>
      fetch_calls (fst (start_ingestion interval mgr its)) = length its)
   \<and> start_ingestion interval (mgr\<lparr>mgr_is_running := True\<rparr>) its = start_ingestion interval mgr its"
  using stop_ingestion_idem [of mgr] stop_ingestion_fresh [of series]
    start_ingestion_running_fetches [of mgr its interval]
  by (simp add: start_ingestion_def)

theorem C9_stop_idempotent_start_unguarded_witness:
  "fst (stop_ingestion \<lparr>mgr_series = ''WEC'', scraper = Some (WECScraper SessionOpen),
                         mgr_is_running = True\<rparr>) = None
   \<and> stop_ingestion (snd (stop_ingestion \<lparr>mgr_series = ''WEC'',
          scraper = Some (WECScraper SessionOpen), mgr_is_running = True\<rparr>))
      = (None, \<lparr>mgr_series = ''WEC'', scraper = Some (WECScraper SessionClosed),
                 mgr_is_running = False\<rparr>)
   \<and> (''IMSA'' = ''WEC'' \<or> ''IMSA'' = ''IMSA'')
   \<and> stop_ingestion (DataIngestionManager ''IMSA'') = (None, DataIngestionManager ''IMSA'')
   \<and> mgr_is_running \<lparr>mgr_series = ''WEC'', scraper = Some (WECScraper SessionOpen),
                       mgr_is_running = True\<rparr>
   \<and> scraper_matches \<lparr>mgr_series = ''WEC'', scraper = Some (WECScraper SessionOpen),
                        mgr_is_running = True\<rparr>
   \<and> never_stopped [iter (FetchRaises :: unit fetch_outcome) False, iter FetchRaises False]
   \<and> fetch_calls (fst (start_ingestion 10 \<lparr>mgr_series = ''WEC'',
          scraper = Some (WECScraper SessionOpen), mgr_is_running = True\<rparr>
          [iter (FetchRaises :: unit fetch_outcome) False, iter FetchRaises False])) = 2"
proof -
  let ?m = "\<lparr>mgr_series = ''WEC'', scraper = Some (WECScraper SessionOpen),
             mgr_is_running = True\<rparr>"
  let ?its = "[iter (FetchRaises :: unit fetch_outcome) False, iter FetchRaises False]"
  have a: "fst (stop_ingestion ?m) = None"
    "snd (stop_ingestion ?m) = \<lparr>mgr_series = ''WEC'', scraper = Some (WECScraper SessionClosed),
                 mgr_is_running = False\<rparr>"
    by (simp_all add: stop_ingestion_def)
  have b: "mgr_is_running ?m" "scraper_matches ?m" "never_stopped ?its"
    by (simp_all add: scraper_matches_def never_stopped_def iter_def)
  show ?thesis
    using C9_stop_idempotent_start_unguarded [where mgr = ?m and series = "''IMSA''"
        and its = ?its and interval = 10] a b
    by simp
qed

subsection \<open>The race monitor\<close>

lemma init_rejects_call: "\<not> init_accepts_call"
  by (simp add: init_accepts_call_def call_accepts_def)

lemma monitor_start_ingestion_fails:
  "monitor_start_ingestion env race_info w =
     (let w1 = monitor_stop_ingestion env w
      in w1\<lparr>db := map (\<lambda>r. r\<lparr>is_active := False\<rparr>) (db w1) @
                  [\<lparr>race_id = next_id (db w1), race_series = ev_series race_info,
                    race_name = ev_name race_info, race_track = ev_track race_info,
                    start_time = ev_date race_info, end_time = None, is_active = True\<rparr>],
             acts := acts w1 @ [RaceCreated (next_id (db w1)), StartFailedLogged]\<rparr>)"
  by (simp add: monitor_start_ingestion_def init_rejects_call Let_def)









text \<open>
  C1. The claim is that a poll which finds the next event live, with no session bound,
  ends with a manager for the event's series whose loop runs with the persistence
  callback. Evaluated ten minutes before the start of the 24 Hours of Le Mans on a new
  monitor and an empty table, \<^verbatim>\<open>check_for_live_race\<close> commits the active row and then
  fails in the constructor call, which passes the keyword \<^verbatim>\<open>timing_url\<close> that
  \<^verbatim>\<open>__init__\<close> does not take: no manager is bound, no task is created, and the monitor's
  attributes are those it started with.
\<close>

theorem C1_start_action_fails:
  "get_next_race (utc_seconds 1749913200 - of_minutes 10)
     = Some \<lparr>ev_name = ''24 Hours of Le Mans'', ev_track = ''Circuit de la Sarthe'',
             ev_date = utc_seconds 1749913200, ev_series = ''WEC'',
             ev_timing_url = ''https://timing.71wytham.org.uk/''\<rparr>
   \<and> is_live (utc_seconds 1749913200 - of_minutes 10) (utc_seconds 1749913200)
   \<and> ingestion_manager RaceMonitor = None
   \<and> check_for_live_race
        \<lparr>clock_schedule = utc_seconds 1749913200 - of_minutes 10,
         clock_check = utc_seconds 1749913200 - of_minutes 10,
         clock_stop = utc_seconds 1749913200 - of_minutes 10, export_raises = False\<rparr>
        \<lparr>mon = RaceMonitor, db = [], acts = []\<rparr>
     = \<lparr>mon = RaceMonitor,
        db = [\<lparr>race_id = 1, race_series = ''WEC'', race_name = ''24 Hours of Le Mans'',
               race_track = ''Circuit de la Sarthe'', start_time = utc_seconds 1749913200,
               end_time = None, is_active = True\<rparr>],
        acts = [RaceCreated 1, StartFailedLogged]\<rparr>"
  by code_simp

lemma min_by_date_in: "min_by_date best rs \<in> set (best # rs)"
  by (induction rs arbitrary: best) auto

lemma get_next_race_in_upcoming:
  "get_next_race_in all_races now = Some r \<Longrightarrow> r \<in> set all_races \<and> now < ev_date r"
proof -
  assume a: "get_next_race_in all_races now = Some r"
  then obtain x xs where f: "filter (\<lambda>race. ev_date race > now) all_races = x # xs"
    and r: "r = min_by_date x xs"
    by (auto simp: get_next_race_in_def split: list.splits)
  have "r \<in> set (filter (\<lambda>race. ev_date race > now) all_races)"
    using min_by_date_in [of x xs] f r by simp
  then show ?thesis by simp
qed

lemma stop_clears_manager:
  "ingestion_manager (mon w) = Some mgr \<Longrightarrow> fst (stop_ingestion mgr) = None \<Longrightarrow>
   ingestion_manager (mon (monitor_stop_ingestion env w)) = None \<and>
   ManagerStopCalled \<in> set (acts (monitor_stop_ingestion env w))"
  by (cases "stop_ingestion mgr")
     (auto simp: monitor_stop_ingestion_def split: prod.splits)

lemma started_event_is_stopped:
  assumes m: "ingestion_manager (mon w) = Some mgr" and s: "fst (stop_ingestion mgr) = None"
    and n: "current_race_name (mon w) = Some name"
    and p: "\<forall>r\<in>set all_races. ev_name r = name \<longrightarrow> ev_date r \<le> clock_schedule env"
  shows "ingestion_manager (mon (check_for_live_race_in all_races env w)) = None
     \<and> ManagerStopCalled \<in> set (acts (check_for_live_race_in all_races env w))"
proof (cases "get_next_race_in all_races (clock_schedule env)")
  case None
  then show ?thesis using stop_clears_manager [OF m s, of env]
    by (simp add: check_for_live_race_in_def)
next
  case (Some r)
  have "ev_name r \<noteq> name"
    using get_next_race_in_upcoming [OF Some] p by fastforce
  then have d: "current_race_name (mon w) \<noteq> Some (ev_name r)" using n by simp
  show ?thesis
    using Some d m stop_clears_manager [OF m s, of env]
    by (simp add: check_for_live_race_in_def monitor_start_ingestion_fails Let_def)
qed









text \<open>\<^verbatim>\<open>stop_monitoring\<close> clears the monitor's flag and stops ingestion in the same way.\<close>

lemma stop_monitoring_not_running:
  "\<not> is_running (mon (stop_monitoring env w))"
  by (cases "ingestion_manager (mon w)")
     (auto simp: stop_monitoring_def monitor_stop_ingestion_def split: prod.splits option.splits)

subsection \<open>The parsers of the WEC scraper\<close>

















































text \<open>
  The gap parser has no branch for minutes: a gap rendered \<^verbatim>\<open>+1:23.456\<close> is rejected by
  \<^verbatim>\<open>float()\<close> and comes out as \<^verbatim>\<open>None\<close>.
\<close>

lemma gap_with_minutes_example: "gap_of_text (Some ''+1:23.456'') = None"
proof -
  have u: "\<not> contains ''LAP'' (upper ''+1:23.456'')" by (simp add: upper_def upper_char_def)
  have l: "lower ''1:23.456'' = ''1:23.456''" by code_simp
  have "py_float ''1:23.456'' = None"
    by (simp add: py_float_def strip_with_def is_c_space_def float_literal_def l
      float_number_def mantissa_def digitpart_def is_digit_def)
  then show ?thesis using u by (simp add: gap_of_text_def remove_char_def)
qed

subsection \<open>One fetch of the WEC scraper\<close>










end
